theory Spec2Isabelle
  imports Main "HOL-Library.Word"
begin

section \<open>Machine types of the target\<close>

text \<open>
  The player is written against \<^verbatim>\<open>3ds.h\<close> and the NDSP audio service, so it is built
  for the Nintendo 3DS only: an ILP32 ARM target. There \<^verbatim>\<open>size_t\<close>, \<^verbatim>\<open>unsigned int\<close>
  and \<^verbatim>\<open>u32\<close> are 32-bit unsigned, \<^verbatim>\<open>int\<close> and \<^verbatim>\<open>long\<close> are 32-bit signed,
  \<^verbatim>\<open>ogg_int64_t\<close> is 64-bit signed and \<^verbatim>\<open>s16\<close> is 16-bit signed. Unsigned arithmetic
  wraps, which is what \<open>+\<close>, \<open>-\<close> and \<open>*\<close> on words do.
\<close>

type_synonym byte = "8 word"
type_synonym size_t = "32 word"
type_synonym ogg_int64_t = "64 word"
type_synonym s16 = "16 word"

section \<open>Undefined behaviour as a value\<close>

text \<open>
  Where the C code reads or writes outside an object, or divides by zero, the model
  stops with a fault and the state reached at that point.
\<close>

datatype fault =
    OutOfBoundsRead      \<comment> \<open>\<^verbatim>\<open>memcpy\<close> from beyond the track's bytes\<close>
  | DivideByZero         \<comment> \<open>\<^verbatim>\<open>bytes_to_read / size\<close> with \<^verbatim>\<open>size == 0\<close>\<close>
  | OutOfBoundsIndex     \<comment> \<open>\<^verbatim>\<open>tracks[index]\<close> with index outside the array\<close>
  | NullPointer          \<comment> \<open>\<^verbatim>\<open>ov_read\<close> writing through a null \<^verbatim>\<open>audio_buffer\<close>\<close>

section \<open>The track and its cursor callbacks\<close>

text \<open>
  \<^verbatim>\<open>typedef struct { const unsigned char* data; unsigned int size; size_t offset; } Track;\<close>
  The pointer \<^verbatim>\<open>data\<close> is modelled by the bytes it points to.
\<close>

record Track =
  data :: "byte list"
  size :: "32 word"
  offset :: size_t

definition SEEK_SET :: int where "SEEK_SET = 0"
definition SEEK_CUR :: int where "SEEK_CUR = 1"
definition SEEK_END :: int where "SEEK_END = 2"

text \<open>
  \<^verbatim>\<open>mem_read_func(ptr, size, nmemb, datasource)\<close>. The result holds the bytes copied to
  \<^verbatim>\<open>ptr\<close>, the value returned and the track afterwards. The \<^verbatim>\<open>memcpy\<close> reads
  \<^verbatim>\<open>bytes_to_read\<close> bytes from \<^verbatim>\<open>data + offset\<close>; when that range is not inside the
  track's bytes the read is a fault.
\<close>

definition mem_read_func ::
  "Track \<Rightarrow> size_t \<Rightarrow> size_t \<Rightarrow> (fault \<times> Track) + (byte list \<times> size_t \<times> Track)" where
  "mem_read_func track sz nmemb =
     (let bytes_to_read = sz * nmemb;
          bytes_to_read =
            (if offset track + bytes_to_read > size track
             then size track - offset track else bytes_to_read)
      in if unat (offset track) + unat bytes_to_read > length (data track)
         then Inl (OutOfBoundsRead, track)
         else
           let ptr = take (unat bytes_to_read) (drop (unat (offset track)) (data track));
               track' = track\<lparr>offset := offset track + bytes_to_read\<rparr>
           in if sz = 0 then Inl (DivideByZero, track')
              else Inr (ptr, bytes_to_read div sz, track'))"

text \<open>
  \<^verbatim>\<open>mem_seek_func(datasource, offset, whence)\<close>, returning the \<^verbatim>\<open>int\<close> result and the
  track afterwards. The casts \<^verbatim>\<open>(size_t)offset\<close> keep the low 32 bits (\<open>ucast\<close>). In
  \<^verbatim>\<open>track->offset + offset\<close> and \<^verbatim>\<open>track->size + offset\<close> the 32-bit unsigned operand
  is converted to the 64-bit signed type, the sum is compared as a signed value, and
  the assignment to \<^verbatim>\<open>track->offset\<close> keeps the low 32 bits. (A 64-bit sum or negation
  that leaves the signed range is undefined in C; on words it wraps.)
\<close>

definition mem_seek_func :: "Track \<Rightarrow> ogg_int64_t \<Rightarrow> int \<Rightarrow> int \<times> Track" where
  "mem_seek_func track off whence =
     (if whence = SEEK_SET then
        (if (ucast off :: size_t) > size track then (-1, track)
         else (0, track\<lparr>offset := ucast off\<rparr>))
      else if whence = SEEK_CUR then
        (if sint ((ucast (offset track) :: ogg_int64_t) + off)
              > sint (ucast (size track) :: ogg_int64_t)
         then (-1, track)
         else (0, track\<lparr>offset := ucast ((ucast (offset track) :: ogg_int64_t) + off)\<rparr>))
      else if whence = SEEK_END then
        (if sint off > 0 \<or> (ucast (- off) :: size_t) > size track then (-1, track)
         else (0, track\<lparr>offset := ucast ((ucast (size track) :: ogg_int64_t) + off)\<rparr>))
      else (-1, track))"

definition mem_close_func :: "Track \<Rightarrow> int" where
  "mem_close_func track = 0"

text \<open>\<^verbatim>\<open>mem_tell_func\<close> returns \<^verbatim>\<open>(long)track->offset\<close>: the offset read as 32-bit signed.\<close>

definition mem_tell_func :: "Track \<Rightarrow> int" where
  "mem_tell_func track = sint (offset track)"

section \<open>The decoder library as a client of the callbacks\<close>

text \<open>
  The Vorbis decoder (Tremor) is an external library. It gets the four callbacks in an
  \<^verbatim>\<open>ov_callbacks\<close> table and a pointer to the track, and touches the track through
  these callbacks only. A library call is therefore modelled as a tree of callback
  requests: each node names the callback and its arguments, and continues with what
  the callback returned.
\<close>

datatype 'a io =
    Ret 'a
  | Read_func size_t size_t "byte list \<Rightarrow> size_t \<Rightarrow> 'a io"
  | Seek_func ogg_int64_t int "int \<Rightarrow> 'a io"
  | Tell_func "int \<Rightarrow> 'a io"
  | Close_func "int \<Rightarrow> 'a io"

primrec run :: "'a io \<Rightarrow> Track \<Rightarrow> (fault \<times> Track) + ('a \<times> Track)" where
  "run (Ret x) track = Inr (x, track)"
| "run (Read_func sz nmemb k) track =
     (case mem_read_func track sz nmemb of
        Inl e \<Rightarrow> Inl e
      | Inr (ptr, n, track') \<Rightarrow> run (k ptr n) track')"
| "run (Seek_func off whence k) track =
     (case mem_seek_func track off whence of (r, track') \<Rightarrow> run (k r) track')"
| "run (Tell_func k) track = run (k (mem_tell_func track)) track"
| "run (Close_func k) track = run (k (mem_close_func track)) track"

text \<open>
  The three entry points of the library that the player calls. \<open>'d\<close> is the decoder's
  own state inside \<^verbatim>\<open>OggVorbis_File\<close>.
  \<^item> \<open>ov_open_callbacks\<close> returns the result code (negative: the asset is rejected)
    and the decoder state;
  \<^item> \<open>ov_read\<close> gets the decoder state, the staging buffer's contents and the byte
    capacity, and returns the number of bytes decoded (zero or negative: nothing more),
    the buffer's new contents and the decoder state;
  \<^item> \<open>ov_clear\<close> releases the decoder state.
\<close>

record 'd vorbis =
  ov_open_callbacks :: "(int \<times> 'd) io"
  ov_read :: "'d \<Rightarrow> s16 list \<Rightarrow> nat \<Rightarrow> (int \<times> s16 list \<times> 'd) io"
  ov_clear :: "'d \<Rightarrow> unit io"

text \<open>What \<open>ov_read\<close> returns on a structure that is not open.\<close>

definition OV_EINVAL :: int where "OV_EINVAL = - 131"

section \<open>The player's globals\<close>

datatype wbuf_status = NDSP_WBUF_FREE | NDSP_WBUF_QUEUED | NDSP_WBUF_PLAYING | NDSP_WBUF_DONE

datatype vaddr = NULL | Audio_buffer

text \<open>The fields of \<^verbatim>\<open>ndspWaveBuf\<close> that the player writes or reads.\<close>

record ndspWaveBuf =
  data_vaddr :: vaddr
  nsamples :: "32 word"
  looping :: bool
  status :: wbuf_status

text \<open>\<^verbatim>\<open>memset(&waveBuf, 0, sizeof(ndspWaveBuf))\<close>\<close>

definition zero_waveBuf :: ndspWaveBuf where
  "zero_waveBuf = \<lparr>data_vaddr = NULL, nsamples = 0, looping = False, status = NDSP_WBUF_FREE\<rparr>"

text \<open>
  The calls into the audio service, the allocator and the decoder, in the order the
  player makes them. This log is the player's observable effect on the hardware queue.
\<close>

datatype call =
    NdspInit | NdspSetOutputMode | NdspChnReset | NdspChnSetInterp | NdspChnSetRate nat
  | NdspChnSetFormat | NdspChnSetMix | NdspSetCallback | NdspExit
  | NdspChnWaveBufAdd ndspWaveBuf
  | Memalign | Free
  | OvOpenCallbacks nat | OvRead | OvClear

record 'd OggVorbis_File =
  datasource :: nat
  decoder :: 'd

text \<open>
  The file-scope variables of \<^verbatim>\<open>player.c\<close>, and the separate file-scope variable
  \<^verbatim>\<open>playing\<close> that \<^verbatim>\<open>main.c\<close> declares for itself (\<open>main_playing\<close>): both are
  \<^verbatim>\<open>static\<close>, so they are two objects. \<open>tracks\<close> is the array \<^verbatim>\<open>tracks[3]\<close>, indexed
  by 0, 1 and 2. \<open>vf\<close> is \<open>None\<close> while the structure is cleared, and otherwise holds
  the track it is bound to. \<open>audio_buffer\<close> is \<open>None\<close> for the null pointer.
\<close>

record 'd player =
  tracks :: "nat \<Rightarrow> Track"
  vf :: "'d OggVorbis_File option"
  playing :: bool
  audio_initialized :: bool
  audio_buffer :: "s16 list option"
  current_track :: int
  waveBuf :: ndspWaveBuf
  main_playing :: bool
  calls :: "call list"

definition AUDIO_SAMPLE_RATE :: nat where "AUDIO_SAMPLE_RATE = 44100"
definition AUDIO_CHANNELS :: nat where "AUDIO_CHANNELS = 2"
definition AUDIO_BUFFER_SIZE :: nat where "AUDIO_BUFFER_SIZE = 1024 * AUDIO_CHANNELS"
definition NUM_TRACKS :: int where "NUM_TRACKS = 3"

text \<open>The state the static initialisers give.\<close>

definition initial_player :: "'d player" where
  "initial_player =
     \<lparr>tracks = (\<lambda>_. \<lparr>data = [], size = 0, offset = 0\<rparr>), vf = None, playing = False,
      audio_initialized = False, audio_buffer = None, current_track = - 1,
      waveBuf = zero_waveBuf, main_playing = False, calls = []\<rparr>"

text \<open>The address \<^verbatim>\<open>audio_buffer\<close> holds.\<close>

definition audio_buffer_addr :: "'d player \<Rightarrow> vaddr" where
  "audio_buffer_addr s = (case audio_buffer s of None \<Rightarrow> NULL | Some _ \<Rightarrow> Audio_buffer)"

text \<open>A library call on the track \<^verbatim>\<open>tracks[i]\<close>: the callbacks update that track.\<close>

definition via_callbacks ::
  "'a io \<Rightarrow> nat \<Rightarrow> 'd player \<Rightarrow> (fault \<times> 'd player) + ('a \<times> 'd player)" where
  "via_callbacks m i s =
     (case run m (tracks s i) of
        Inl (f, t) \<Rightarrow> Inl (f, s\<lparr>tracks := (tracks s)(i := t)\<rparr>)
      | Inr (x, t) \<Rightarrow> Inr (x, s\<lparr>tracks := (tracks s)(i := t)\<rparr>))"

section \<open>The drained-notification callback\<close>

text \<open>
  \<^verbatim>\<open>ov_read(&vf, (char*)audio_buffer, AUDIO_BUFFER_SIZE * sizeof(s16), &bitstream)\<close>:
  the decoder writes into the staging buffer, so a null \<^verbatim>\<open>audio_buffer\<close> is a fault.
\<close>

definition ov_read_call ::
  "'d vorbis \<Rightarrow> 'd player \<Rightarrow> (fault \<times> 'd player) + (int \<times> 'd player)" where
  "ov_read_call lib s =
     (let s0 = s\<lparr>calls := calls s @ [OvRead]\<rparr> in
      case vf s0 of
        None \<Rightarrow> Inr (OV_EINVAL, s0)
      | Some v \<Rightarrow>
          (case audio_buffer s0 of
             None \<Rightarrow> Inl (NullPointer, s0)
           | Some buf \<Rightarrow>
               (case via_callbacks (ov_read lib (decoder v) buf (AUDIO_BUFFER_SIZE * 2))
                       (datasource v) s0 of
                  Inl e \<Rightarrow> Inl e
                | Inr ((n, buf', d'), s1) \<Rightarrow>
                    Inr (n, s1\<lparr>audio_buffer := Some buf',
                                vf := Some (v\<lparr>decoder := d'\<rparr>)\<rparr>))))"

definition myNdspCallback :: "'d vorbis \<Rightarrow> 'd player \<Rightarrow> (fault \<times> 'd player) + 'd player" where
  "myNdspCallback lib s =
     (if \<not> playing s \<or> status (waveBuf s) \<noteq> NDSP_WBUF_DONE then Inr s
      else
        (case ov_read_call lib s of
           Inl e \<Rightarrow> Inl e
         | Inr (bytesRead, s1) \<Rightarrow>
             if bytesRead \<le> 0 then Inr (s1\<lparr>playing := False\<rparr>)
             else
               let w = zero_waveBuf
                     \<lparr>data_vaddr := audio_buffer_addr s1,
                      nsamples := word_of_int (bytesRead div 2 div int AUDIO_CHANNELS),
                      looping := False\<rparr>
               in Inr (s1\<lparr>waveBuf := w, calls := calls s1 @ [NdspChnWaveBufAdd w]\<rparr>)))"

text \<open>The callback invoked \<open>n\<close> times in a row.\<close>

fun callbacks :: "'d vorbis \<Rightarrow> nat \<Rightarrow> 'd player \<Rightarrow> (fault \<times> 'd player) + 'd player" where
  "callbacks lib 0 s = Inr s"
| "callbacks lib (Suc n) s =
     (case myNdspCallback lib s of Inl e \<Rightarrow> Inl e | Inr s' \<Rightarrow> callbacks lib n s')"

section \<open>Player control\<close>

text \<open>
  The embedded assets \<^verbatim>\<open>track1_ogg\<close>, \<^verbatim>\<open>track1_ogg_len\<close>, ... come from generated
  headers; they are parameters here. In \<^verbatim>\<open>playerInit\<close> the allocation of the staging
  buffer is taken to succeed.
\<close>

record assets =
  track1_ogg :: "byte list"
  track1_ogg_len :: "32 word"
  track2_ogg :: "byte list"
  track2_ogg_len :: "32 word"
  track3_ogg :: "byte list"
  track3_ogg_len :: "32 word"

definition playerInit :: "assets \<Rightarrow> 'd player \<Rightarrow> 'd player" where
  "playerInit a s =
     (if audio_initialized s then s
      else
        s\<lparr>tracks := (tracks s)
             (0 := \<lparr>data = track1_ogg a, size = track1_ogg_len a, offset = 0\<rparr>,
              1 := \<lparr>data = track2_ogg a, size = track2_ogg_len a, offset = 0\<rparr>,
              2 := \<lparr>data = track3_ogg a, size = track3_ogg_len a, offset = 0\<rparr>),
          audio_buffer := Some (replicate AUDIO_BUFFER_SIZE 0),
          calls := calls s @
            [NdspInit, NdspSetOutputMode, NdspChnReset, Memalign, NdspChnSetInterp,
             NdspChnSetRate AUDIO_SAMPLE_RATE, NdspChnSetFormat, NdspChnSetMix,
             NdspSetCallback],
          audio_initialized := True\<rparr>)"

text \<open>
  \<^verbatim>\<open>ov_clear(&vf)\<close> closes the data source through \<^verbatim>\<open>close_func\<close> and zeroes the
  structure; on a structure that is already cleared it has nothing to close.
\<close>

definition playerStop :: "'d vorbis \<Rightarrow> 'd player \<Rightarrow> (fault \<times> 'd player) + 'd player" where
  "playerStop lib s =
     (if \<not> playing s then Inr s
      else
        let s0 = s\<lparr>calls := calls s @ [OvClear]\<rparr> in
        case (case vf s0 of
                None \<Rightarrow> Inr ((), s0)
              | Some v \<Rightarrow> via_callbacks (ov_clear lib (decoder v)) (datasource v) s0) of
          Inl e \<Rightarrow> Inl e
        | Inr (u, s1) \<Rightarrow>
            Inr (s1\<lparr>vf := None, calls := calls s1 @ [NdspChnReset], playing := False\<rparr>))"

text \<open>
  \<^verbatim>\<open>playerPlay(int index)\<close>. There is no check of \<open>index\<close>: outside the array
  \<^verbatim>\<open>tracks[index].offset = 0\<close> is a write out of bounds. After a failed open the
  library leaves the structure cleared.
\<close>

definition playerPlay ::
  "'d vorbis \<Rightarrow> int \<Rightarrow> 'd player \<Rightarrow> (fault \<times> 'd player) + 'd player" where
  "playerPlay lib index s =
     (case (if playing s then playerStop lib s else Inr s) of
        Inl e \<Rightarrow> Inl e
      | Inr s1 \<Rightarrow>
          let s2 = s1\<lparr>current_track := index\<rparr> in
          if index < 0 \<or> NUM_TRACKS \<le> index then Inl (OutOfBoundsIndex, s2)
          else
            let i = nat index;
                s3 = s2\<lparr>tracks := (tracks s2)(i := (tracks s2 i)\<lparr>offset := 0\<rparr>),
                        calls := calls s2 @ [OvOpenCallbacks i]\<rparr>
            in (case via_callbacks (ov_open_callbacks lib) i s3 of
                  Inl e \<Rightarrow> Inl e
                | Inr ((r, d), s4) \<Rightarrow>
                    if r < 0 then Inr (s4\<lparr>vf := None\<rparr>)
                    else
                      let s5 = s4\<lparr>vf := Some \<lparr>datasource = i, decoder = d\<rparr>\<rparr>;
                          w = zero_waveBuf
                                \<lparr>data_vaddr := audio_buffer_addr s5,
                                 status := NDSP_WBUF_DONE\<rparr>
                      in Inr (s5\<lparr>waveBuf := w,
                                 calls := calls s5 @ [NdspChnWaveBufAdd w],
                                 playing := True\<rparr>)))"

definition playerExit :: "'d vorbis \<Rightarrow> 'd player \<Rightarrow> (fault \<times> 'd player) + 'd player" where
  "playerExit lib s =
     (case (if playing s then playerStop lib s else Inr s) of
        Inl e \<Rightarrow> Inl e
      | Inr s1 \<Rightarrow>
          if audio_initialized s1 then
            Inr (s1\<lparr>calls := calls s1 @ [NdspChnReset, NdspExit, Free],
                    audio_buffer := None,
                    audio_initialized := False\<rparr>)
          else Inr s1)"

text \<open>\<^verbatim>\<open>playerIsPlaying\<close> is defined in \<^verbatim>\<open>main.c\<close> and returns that file's own \<^verbatim>\<open>playing\<close>.\<close>

definition playerIsPlaying :: "'d player \<Rightarrow> bool" where
  "playerIsPlaying s = main_playing s"

section \<open>Reading off outcomes\<close>

text \<open>The state, or track, an operation ends in, whether it returns or faults.\<close>

definition final_state :: "(fault \<times> 's) + 's \<Rightarrow> 's" where
  "final_state r = (case r of Inl (f, s) \<Rightarrow> s | Inr s \<Rightarrow> s)"

definition ended :: "(fault \<times> 's) + ('a \<times> 's) \<Rightarrow> 's" where
  "ended r = (case r of Inl (f, s) \<Rightarrow> s | Inr (x, s) \<Rightarrow> s)"

section \<open>A small decoder and three assets for concrete runs\<close>

text \<open>
  A stand-in for the decoder with the library's interface: opening reads four bytes
  through \<^verbatim>\<open>read_func\<close> and accepts the asset when they are the Ogg capture pattern
  \<^verbatim>\<open>OggS\<close> (otherwise it answers \<^verbatim>\<open>OV_ENOTVORBIS\<close>, -132); reading reports the end of
  the stream; clearing calls \<^verbatim>\<open>close_func\<close>.
\<close>

definition demo_vorbis :: "nat vorbis" where
  "demo_vorbis =
     \<lparr>ov_open_callbacks =
        Read_func 1 4 (\<lambda>ptr n. Ret (if ptr = [79, 103, 103, 83] then 0 else - 132, 0)),
      ov_read = (\<lambda>d buf cap. Ret (0, buf, d)),
      ov_clear = (\<lambda>d. Close_func (\<lambda>r. Ret ()))\<rparr>"

definition demo_assets :: assets where
  "demo_assets =
     \<lparr>track1_ogg = [79, 103, 103, 83, 0, 2], track1_ogg_len = 6,
      track2_ogg = [1, 2, 3, 4, 5, 6], track2_ogg_len = 6,
      track3_ogg = [], track3_ogg_len = 0\<rparr>"

text \<open>After \<^verbatim>\<open>playerInit()\<close>, and after \<^verbatim>\<open>playerInit(); playerPlay(0)\<close>.\<close>

definition demo_ready :: "nat player" where
  "demo_ready = playerInit demo_assets initial_player"

definition demo_playing :: "nat player" where
  "demo_playing = final_state (playerPlay demo_vorbis 0 demo_ready)"

text \<open>The second track read to its end, as after an earlier session on it.\<close>

definition demo_consumed :: "nat player" where
  "demo_consumed =
     demo_ready\<lparr>tracks := (tracks demo_ready)(1 := (tracks demo_ready 1)\<lparr>offset := 6\<rparr>)\<rparr>"

section \<open>Facts about the cursor callbacks\<close>

lemma mem_seek_func_result:
  "fst (mem_seek_func t off w) = 0 \<or> fst (mem_seek_func t off w) = - 1"
  by (simp add: mem_seek_func_def)

text \<open>Every \<^verbatim>\<open>return -1\<close> of the seek comes before the assignment to the offset.\<close>

lemma mem_seek_func_fail_unchanged:
  "fst (mem_seek_func t off w) \<noteq> 0 \<Longrightarrow> snd (mem_seek_func t off w) = t"
  by (auto simp add: mem_seek_func_def split: if_splits)

lemma mem_seek_func_asset:
  "data (snd (mem_seek_func t off w)) = data t \<and> size (snd (mem_seek_func t off w)) = size t"
  by (simp add: mem_seek_func_def)

text \<open>
  What each mode of the seek tests, read on integers, for displacements of moderate
  size. \<^verbatim>\<open>SEEK_SET\<close> and \<^verbatim>\<open>SEEK_END\<close> test both ends of the range; \<^verbatim>\<open>SEEK_CUR\<close> tests the
  upper end only.
\<close>

lemma sint_ucast_32_64: "sint (ucast (a :: 32 word) :: 64 word) = uint a"
proof -
  have lt: "uint a < 4294967296" using uint_bounded [of a] by simp
  have nn: "0 \<le> uint a" by simp
  have "- 9223372036854775808 \<le> uint a \<and> uint a < 9223372036854775808"
    using lt nn by linarith
  then have "- (2 ^ 63) \<le> uint a \<and> uint a < 2 ^ 63" by simp
  then show ?thesis
    by (simp add: signed_ucast_eq signed_take_bit_int_eq_self)
qed

lemma sint_add_small:
  assumes "- (2 ^ 62) \<le> sint (off :: 64 word)" "sint off < 2 ^ 62"
  shows "sint ((ucast (a :: 32 word) :: 64 word) + off) = uint a + sint off"
proof -
  have lt: "uint a < 4294967296" using uint_bounded [of a] by simp
  have nn: "0 \<le> uint a" by simp
  have lo: "- 4611686018427387904 \<le> sint off" and hi: "sint off < 4611686018427387904"
    using assms by simp_all
  have "- 9223372036854775808 \<le> uint a + sint off \<and>
      uint a + sint off < 9223372036854775808"
    using lt nn lo hi by linarith
  then have "- (2 ^ 63) \<le> uint a + sint off \<and> uint a + sint off < 2 ^ 63" by simp
  then show ?thesis
    by (simp add: sint_word_ariths sint_ucast_32_64 signed_take_bit_int_eq_self)
qed

lemma uint_ucast_low:
  assumes "0 \<le> sint (off :: 64 word)" "sint off < 2 ^ 32"
  shows "uint (ucast off :: 32 word) = sint off"
proof -
  have "uint off = take_bit 64 (sint off)" using uint_sint [of off] by simp
  also have "\<dots> = sint off" using assms by (simp add: take_bit_int_eq_self)
  finally have u: "uint off = sint off" .
  have "uint (ucast off :: 32 word) = take_bit 32 (uint off)"
    by (simp add: unsigned_ucast_eq)
  also have "\<dots> = sint off" using u assms by (simp add: take_bit_int_eq_self)
  finally show ?thesis .
qed

lemma mem_seek_func_SEEK_SET_test:
  assumes "0 \<le> sint off" and "sint off < 2 ^ 32"
  shows "(fst (mem_seek_func t off SEEK_SET) = 0) = (sint off \<le> uint (size t))"
  using uint_ucast_low [OF assms]
  by (simp add: mem_seek_func_def word_less_def not_less)

lemma mem_seek_func_SEEK_CUR_test:
  assumes "- (2 ^ 62) \<le> sint off" and "sint off < 2 ^ 62"
  shows "(fst (mem_seek_func t off SEEK_CUR) = 0) = (uint (offset t) + sint off \<le> uint (size t))"
  using sint_add_small [OF assms, of "offset t"] sint_ucast_32_64 [of "size t"]
  by (simp add: mem_seek_func_def SEEK_SET_def SEEK_CUR_def not_less)


lemma mem_seek_func_SEEK_END_test:
  assumes "- (2 ^ 32) < sint off"
  shows "(fst (mem_seek_func t off SEEK_END) = 0)
           = (sint off \<le> 0 \<and> 0 \<le> uint (size t) + sint off)"
proof (cases "0 < sint off")
  case True
  then show ?thesis
    by (simp add: mem_seek_func_def SEEK_SET_def SEEK_CUR_def SEEK_END_def)
next
  case False
  have lo: "- 4294967296 < sint off" using assms by simp
  have "- 9223372036854775808 \<le> - sint off \<and> - sint off < 9223372036854775808"
    using lo False by linarith
  then have "- (2 ^ 63) \<le> - sint off \<and> - sint off < 2 ^ 63" by simp
  then have neg: "sint (- off) = - sint off"
    by (simp add: sint_word_ariths signed_take_bit_int_eq_self)
  have "0 \<le> sint (- off)" and "sint (- off) < 2 ^ 32"
    using neg lo False by simp_all
  then have "uint (ucast (- off) :: 32 word) = - sint off"
    using uint_ucast_low [of "- off"] neg by simp
  then show ?thesis
    using False
    by (auto simp add: mem_seek_func_def SEEK_SET_def SEEK_CUR_def SEEK_END_def
        word_less_def not_less)
qed

lemma mem_read_func_asset_Inr:
  "mem_read_func t sz nmemb = Inr (ptr, n, t') \<Longrightarrow> data t' = data t \<and> size t' = size t"
  by (auto simp add: mem_read_func_def Let_def split: if_splits)

lemma mem_read_func_asset_Inl:
  "mem_read_func t sz nmemb = Inl (f, t') \<Longrightarrow> data t' = data t \<and> size t' = size t"
  by (auto simp add: mem_read_func_def Let_def split: if_splits)

text \<open>
  The read on a track whose \<^verbatim>\<open>size\<close> is the length of its bytes, with the offset inside
  the track, an element size that is not zero, and a request that does not carry the
  32-bit sum \<^verbatim>\<open>offset + size * nmemb\<close> past its range.
\<close>

lemma mem_read_func_no_wrap:
  assumes wf: "length (data t) = unat (size t)" and off: "offset t \<le> size t"
    and sz: "sz \<noteq> 0" and nowrap: "unat (offset t) + unat sz * unat nmemb < 2 ^ 32"
  shows "mem_read_func t sz nmemb =
     (let n = min (unat sz * unat nmemb) (unat (size t) - unat (offset t))
      in Inr (take n (drop (unat (offset t)) (data t)), word_of_nat (n div unat sz),
              t\<lparr>offset := offset t + word_of_nat n\<rparr>))"
proof -
  define b where "b = sz * nmemb"
  define n where "n = min (unat sz * unat nmemb) (unat (size t) - unat (offset t))"
  have b: "unat b = unat sz * unat nmemb"
    unfolding b_def using nowrap by (intro unat_mult_lem[THEN iffD1]) simp
  have sum: "unat (offset t + b) = unat (offset t) + unat b"
    using nowrap b by (intro unat_add_lem[THEN iffD1]) simp
  have le: "unat (offset t) \<le> unat (size t)"
    using off by (simp add: word_le_nat_alt)
  define b' where "b' = (if offset t + b > size t then size t - offset t else b)"
  have b': "unat b' = n"
  proof (cases "offset t + b > size t")
    case True
    then have "unat (size t) < unat (offset t) + unat b"
      using sum by (simp add: word_less_nat_alt)
    moreover have "unat (size t - offset t) = unat (size t) - unat (offset t)"
      using off by (simp add: unat_sub)
    ultimately show ?thesis using True b by (simp add: b'_def n_def)
  next
    case False
    then have "unat (offset t) + unat b \<le> unat (size t)"
      using sum by (simp add: word_less_nat_alt not_less)
    then show ?thesis using False b by (simp add: b'_def n_def)
  qed
  have fits: "\<not> unat (offset t) + unat b' > length (data t)"
    using b' le wf by (simp add: n_def)
  have w: "b' = word_of_nat n" unfolding b'[symmetric] by simp
  have d: "b' div sz = word_of_nat (n div unat sz)"
    unfolding b'[symmetric] unat_div[symmetric] by simp
  have "mem_read_func t sz nmemb =
      (if length (data t) < unat (offset t) + unat b' then Inl (OutOfBoundsRead, t)
       else if sz = 0 then Inl (DivideByZero, t\<lparr>offset := offset t + b'\<rparr>)
       else Inr (take (unat b') (drop (unat (offset t)) (data t)), b' div sz,
                 t\<lparr>offset := offset t + b'\<rparr>))"
    by (simp only: mem_read_func_def Let_def b_def b'_def)
  then have "mem_read_func t sz nmemb =
      Inr (take (unat b') (drop (unat (offset t)) (data t)), b' div sz, t\<lparr>offset := offset t + b'\<rparr>)"
    using fits sz by simp
  then show ?thesis
    using b' w d by (simp add: Let_def n_def)
qed

section \<open>Facts about library calls\<close>

text \<open>
  Whatever callbacks a library call makes, in whatever order, the track keeps its
  bytes and its size: by induction on the tree of requests.
\<close>

lemma run_asset:
  "data (ended (run m t)) = data t \<and> size (ended (run m t)) = size t"
proof (induction m arbitrary: t)
  case (Ret x)
  show ?case by (simp add: ended_def)
next
  case (Read_func sz nmemb k)
  show ?case
  proof (cases "mem_read_func t sz nmemb")
    case (Inl e)
    then show ?thesis
      using mem_read_func_asset_Inl [of t sz nmemb "fst e" "snd e"]
      by (auto simp add: ended_def split: prod.splits)
  next
    case (Inr r)
    obtain ptr n t' where r: "r = (ptr, n, t')" by (cases r) auto
    have "data t' = data t \<and> size t' = size t"
      using Inr r mem_read_func_asset_Inr by blast
    then show ?thesis
      using Inr r Read_func.IH [OF rangeI rangeI, of ptr n t'] by simp
  qed
next
  case (Seek_func off whence k)
  obtain r t' where st: "mem_seek_func t off whence = (r, t')"
    by (cases "mem_seek_func t off whence")
  have "data t' = data t \<and> size t' = size t"
    using mem_seek_func_asset [of t off whence] st by simp
  then show ?case
    using st Seek_func.IH [OF rangeI, of r t'] by simp
next
  case (Tell_func k)
  show ?case using Tell_func.IH [OF rangeI, of "mem_tell_func t" t] by simp
next
  case (Close_func k)
  show ?case using Close_func.IH [OF rangeI, of "mem_close_func t" t] by simp
qed

lemma via_callbacks_Inr:
  assumes "via_callbacks m j s = Inr (x, s')"
  shows "\<exists>t'. run m (tracks s j) = Inr (x, t') \<and> s' = s\<lparr>tracks := (tracks s)(j := t')\<rparr>"
  using assms by (auto simp add: via_callbacks_def split: sum.splits prod.splits)

lemma via_callbacks_Inl:
  assumes "via_callbacks m j s = Inl (f, s')"
  shows "\<exists>t'. run m (tracks s j) = Inl (f, t') \<and> s' = s\<lparr>tracks := (tracks s)(j := t')\<rparr>"
  using assms by (auto simp add: via_callbacks_def split: sum.splits prod.splits)

lemma via_callbacks_asset:
  "data (tracks (ended (via_callbacks m j s)) i) = data (tracks s i) \<and>
   size (tracks (ended (via_callbacks m j s)) i) = size (tracks s i)"
  using run_asset [of m "tracks s j"]
  by (auto simp add: via_callbacks_def ended_def split: sum.splits prod.splits)

section \<open>Facts about the player's operations\<close>

lemma playerStop_stopped: "\<not> playing s \<Longrightarrow> playerStop lib s = Inr s"
  by (simp add: playerStop_def)

lemma playerStop_Inr_stopped: "playerStop lib s = Inr s' \<Longrightarrow> \<not> playing s'"
  by (auto simp add: playerStop_def Let_def split: if_splits sum.splits option.splits prod.splits)

lemma myNdspCallback_stopped: "\<not> playing s \<Longrightarrow> myNdspCallback lib s = Inr s"
  by (simp add: myNdspCallback_def)

lemma callbacks_stopped: "\<not> playing s \<Longrightarrow> callbacks lib n s = Inr s"
  by (induction n) (simp_all add: myNdspCallback_stopped)

lemma ov_read_call_frame:
  assumes "ov_read_call lib s = Inr (n, s1)"
  shows "playing s1 = playing s \<and> waveBuf s1 = waveBuf s \<and> calls s1 = calls s @ [OvRead] \<and>
         main_playing s1 = main_playing s \<and> current_track s1 = current_track s \<and>
         audio_initialized s1 = audio_initialized s"
  using assms
  by (auto simp add: ov_read_call_def Let_def dest!: via_callbacks_Inr
      split: option.splits sum.splits prod.splits)

lemma via_callbacks_Inr_asset:
  "via_callbacks m j s = Inr (x, s') \<Longrightarrow>
     data (tracks s' i) = data (tracks s i) \<and> size (tracks s' i) = size (tracks s i)"
  using via_callbacks_asset [of m j s i] by (simp add: ended_def)

lemma via_callbacks_Inl_asset:
  "via_callbacks m j s = Inl (f, s') \<Longrightarrow>
     data (tracks s' i) = data (tracks s i) \<and> size (tracks s' i) = size (tracks s i)"
  using via_callbacks_asset [of m j s i] by (simp add: ended_def)

lemma via_callbacks_Inr_main_playing:
  "via_callbacks m j s = Inr (x, s') \<Longrightarrow> main_playing s' = main_playing s"
  by (auto dest!: via_callbacks_Inr)

lemma via_callbacks_Inl_main_playing:
  "via_callbacks m j s = Inl (f, s') \<Longrightarrow> main_playing s' = main_playing s"
  by (auto dest!: via_callbacks_Inl)

lemma playerStop_asset:
  "data (tracks (final_state (playerStop lib s)) i) = data (tracks s i) \<and>
   size (tracks (final_state (playerStop lib s)) i) = size (tracks s i)"
proof (cases "playing s")
  case False
  then show ?thesis by (simp add: playerStop_def final_state_def)
next
  case True
  show ?thesis
  proof (cases "vf s")
    case None
    then show ?thesis using True by (simp add: playerStop_def final_state_def Let_def)
  next
    case (Some v)
    let ?s0 = "s\<lparr>calls := calls s @ [OvClear]\<rparr>"
    show ?thesis
    proof (cases "via_callbacks (ov_clear lib (decoder v)) (datasource v) ?s0")
      case (Inl e)
      obtain f sf where e: "e = (f, sf)" by (cases e)
      have "data (tracks sf i) = data (tracks s i) \<and> size (tracks sf i) = size (tracks s i)"
        using via_callbacks_Inl_asset [OF Inl [unfolded e], of i] by simp
      then show ?thesis
        using True Some Inl e by (simp add: playerStop_def final_state_def Let_def)
    next
      case (Inr r)
      obtain u s1 where r: "r = (u, s1)" by (cases r)
      have "data (tracks s1 i) = data (tracks s i) \<and> size (tracks s1 i) = size (tracks s i)"
        using via_callbacks_Inr_asset [OF Inr [unfolded r], of i] by simp
      then show ?thesis
        using True Some Inr r by (simp add: playerStop_def final_state_def Let_def)
    qed
  qed
qed

lemma playerStop_main_playing:
  "main_playing (final_state (playerStop lib s)) = main_playing s"
proof (cases "playing s")
  case False
  then show ?thesis by (simp add: playerStop_def final_state_def)
next
  case True
  show ?thesis
  proof (cases "vf s")
    case None
    then show ?thesis using True by (simp add: playerStop_def final_state_def Let_def)
  next
    case (Some v)
    let ?s0 = "s\<lparr>calls := calls s @ [OvClear]\<rparr>"
    show ?thesis
    proof (cases "via_callbacks (ov_clear lib (decoder v)) (datasource v) ?s0")
      case (Inl e)
      obtain f sf where e: "e = (f, sf)" by (cases e)
      have "main_playing sf = main_playing s"
        using via_callbacks_Inl_main_playing [OF Inl [unfolded e]] by simp
      then show ?thesis
        using True Some Inl e by (simp add: playerStop_def final_state_def Let_def)
    next
      case (Inr r)
      obtain u s1 where r: "r = (u, s1)" by (cases r)
      have "main_playing s1 = main_playing s"
        using via_callbacks_Inr_main_playing [OF Inr [unfolded r]] by simp
      then show ?thesis
        using True Some Inr r by (simp add: playerStop_def final_state_def Let_def)
    qed
  qed
qed

text \<open>The implicit stop at the start of \<^verbatim>\<open>playerPlay\<close> and \<^verbatim>\<open>playerExit\<close>.\<close>

lemma implicit_stop_asset:
  "data (tracks (final_state (if playing s then playerStop lib s else Inr s)) i)
     = data (tracks s i) \<and>
   size (tracks (final_state (if playing s then playerStop lib s else Inr s)) i)
     = size (tracks s i)"
  using playerStop_asset [of lib s i] by (simp add: final_state_def)

lemma implicit_stop_main_playing:
  "main_playing (final_state (if playing s then playerStop lib s else Inr s)) = main_playing s"
  using playerStop_main_playing [of lib s] by (simp add: final_state_def)

lemma playerExit_asset:
  "data (tracks (final_state (playerExit lib s)) i) = data (tracks s i) \<and>
   size (tracks (final_state (playerExit lib s)) i) = size (tracks s i)"
  using implicit_stop_asset [of s lib i]
  by (cases "if playing s then playerStop lib s else Inr s")
     (auto simp add: playerExit_def final_state_def split: prod.splits)

lemma playerPlay_asset:
  "data (tracks (final_state (playerPlay lib index s)) i) = data (tracks s i) \<and>
   size (tracks (final_state (playerPlay lib index s)) i) = size (tracks s i)"
proof (cases "if playing s then playerStop lib s else Inr s")
  case (Inl e)
  then show ?thesis
    using implicit_stop_asset [of s lib i]
    by (auto simp add: playerPlay_def final_state_def split: prod.splits)
next
  case (Inr s1)
  then have s1: "data (tracks s1 i) = data (tracks s i) \<and> size (tracks s1 i) = size (tracks s i)"
    using implicit_stop_asset [of s lib i] by (simp add: final_state_def)
  show ?thesis
  proof (cases "index < 0 \<or> NUM_TRACKS \<le> index")
    case True
    then show ?thesis using Inr s1 by (auto simp add: playerPlay_def final_state_def Let_def)
  next
    case False
    define s3 where "s3 = s1\<lparr>current_track := index,
        tracks := (tracks s1)(nat index := (tracks s1 (nat index))\<lparr>offset := 0\<rparr>),
        calls := calls s1 @ [OvOpenCallbacks (nat index)]\<rparr>"
    have s3: "data (tracks s3 i) = data (tracks s i) \<and> size (tracks s3 i) = size (tracks s i)"
      using s1 by (auto simp add: s3_def)
    have unf: "playerPlay lib index s =
        (case via_callbacks (ov_open_callbacks lib) (nat index) s3 of
           Inl e \<Rightarrow> Inl e
         | Inr ((r, d), s4) \<Rightarrow>
             if r < 0 then Inr (s4\<lparr>vf := None\<rparr>)
             else Inr (s4\<lparr>vf := Some \<lparr>datasource = nat index, decoder = d\<rparr>,
                        waveBuf := zero_waveBuf
                          \<lparr>data_vaddr := audio_buffer_addr s4, status := NDSP_WBUF_DONE\<rparr>,
                        calls := calls s4 @
                          [NdspChnWaveBufAdd (zero_waveBuf
                             \<lparr>data_vaddr := audio_buffer_addr s4, status := NDSP_WBUF_DONE\<rparr>)],
                        playing := True\<rparr>))"
      using Inr False
      by (simp add: playerPlay_def Let_def s3_def audio_buffer_addr_def
          split: sum.splits prod.splits)
    show ?thesis
    proof (cases "via_callbacks (ov_open_callbacks lib) (nat index) s3")
      case (Inl e)
      obtain f sf where e: "e = (f, sf)" by (cases e)
      have "data (tracks sf i) = data (tracks s i) \<and> size (tracks sf i) = size (tracks s i)"
        using via_callbacks_Inl_asset [OF Inl [unfolded e], of i] s3 by simp
      then show ?thesis
        using unf Inl e by (simp add: final_state_def)
    next
      case (Inr r)
      obtain rc d s4 where r: "r = ((rc, d), s4)" by (cases r) auto
      have "data (tracks s4 i) = data (tracks s i) \<and> size (tracks s4 i) = size (tracks s i)"
        using via_callbacks_Inr_asset [OF Inr [unfolded r], of i] s3 by simp
      then show ?thesis
        using unf Inr r by (simp add: final_state_def)
    qed
  qed
qed

lemma playerPlay_main_playing:
  "main_playing (final_state (playerPlay lib index s)) = main_playing s"
proof (cases "if playing s then playerStop lib s else Inr s")
  case (Inl e)
  then show ?thesis
    using implicit_stop_main_playing [of s lib]
    by (auto simp add: playerPlay_def final_state_def split: prod.splits)
next
  case (Inr s1)
  note stop = Inr
  have s1: "main_playing s1 = main_playing s"
    using stop implicit_stop_main_playing [of s lib] by (simp add: final_state_def)
  show ?thesis
  proof (cases "index < 0 \<or> NUM_TRACKS \<le> index")
    case True
    then show ?thesis using stop s1 by (auto simp add: playerPlay_def final_state_def Let_def)
  next
    case False
    define s3 where "s3 = s1\<lparr>current_track := index,
        tracks := (tracks s1)(nat index := (tracks s1 (nat index))\<lparr>offset := 0\<rparr>),
        calls := calls s1 @ [OvOpenCallbacks (nat index)]\<rparr>"
    have s3: "main_playing s3 = main_playing s"
      using s1 by (simp add: s3_def)
    show ?thesis
    proof (cases "via_callbacks (ov_open_callbacks lib) (nat index) s3")
      case (Inl e)
      obtain f sf where e: "e = (f, sf)" by (cases e)
      have "main_playing sf = main_playing s"
        using via_callbacks_Inl_main_playing [OF Inl [unfolded e]] s3 by simp
      then show ?thesis
        using stop False Inl e
        by (simp add: playerPlay_def Let_def s3_def final_state_def)
    next
      case (Inr r)
      obtain rc d s4 where r: "r = ((rc, d), s4)" by (cases r) auto
      have "main_playing s4 = main_playing s"
        using via_callbacks_Inr_main_playing [OF Inr [unfolded r]] s3 by simp
      then show ?thesis
        using stop False Inr r
        by (simp add: playerPlay_def Let_def s3_def final_state_def)
    qed
  qed
qed

lemma ov_read_call_asset:
  "data (tracks (ended (ov_read_call lib s)) i) = data (tracks s i) \<and>
   size (tracks (ended (ov_read_call lib s)) i) = size (tracks s i)"
proof (cases "vf s")
  case None
  then show ?thesis by (simp add: ov_read_call_def ended_def Let_def)
next
  case (Some v)
  show ?thesis
  proof (cases "audio_buffer s")
    case None
    then show ?thesis using Some by (simp add: ov_read_call_def ended_def Let_def)
  next
    case (Some buf)
    let ?s0 = "s\<lparr>calls := calls s @ [OvRead]\<rparr>"
    let ?m = "ov_read lib (decoder v) buf (AUDIO_BUFFER_SIZE * 2)"
    show ?thesis
    proof (cases "via_callbacks ?m (datasource v) ?s0")
      case (Inl e)
      obtain f sf where e: "e = (f, sf)" by (cases e)
      have "data (tracks sf i) = data (tracks s i) \<and> size (tracks sf i) = size (tracks s i)"
        using via_callbacks_Inl_asset [OF Inl [unfolded e], of i] by simp
      then show ?thesis
        using \<open>vf s = Some v\<close> Some Inl e by (simp add: ov_read_call_def ended_def Let_def)
    next
      case (Inr r)
      obtain n buf' d' s1 where r: "r = ((n, buf', d'), s1)" by (cases r) auto
      have "data (tracks s1 i) = data (tracks s i) \<and> size (tracks s1 i) = size (tracks s i)"
        using via_callbacks_Inr_asset [OF Inr [unfolded r], of i] by simp
      then show ?thesis
        using \<open>vf s = Some v\<close> Some Inr r by (simp add: ov_read_call_def ended_def Let_def)
    qed
  qed
qed

lemma myNdspCallback_asset:
  "data (tracks (final_state (myNdspCallback lib s)) i) = data (tracks s i) \<and>
   size (tracks (final_state (myNdspCallback lib s)) i) = size (tracks s i)"
  using ov_read_call_asset [of lib s i]
  by (cases "ov_read_call lib s")
     (auto simp add: myNdspCallback_def final_state_def ended_def Let_def split: prod.splits)

text \<open>The implicit stop leaves the staging buffer alone.\<close>

lemma implicit_stop_audio_buffer:
  assumes "(if playing s then playerStop lib s else Inr s) = Inr s1"
  shows "audio_buffer s1 = audio_buffer s"
  using assms
  by (auto simp add: playerStop_def Let_def dest!: via_callbacks_Inr
      split: if_splits option.splits sum.splits prod.splits)

text \<open>The refill branch of the callback, when \<^verbatim>\<open>ov_read\<close> returns a positive byte count.\<close>

lemma myNdspCallback_refill:
  assumes "playing s" and "status (waveBuf s) = NDSP_WBUF_DONE"
    and "ov_read_call lib s = Inr (bytesRead, s1)" and "0 < bytesRead"
  shows "myNdspCallback lib s =
           Inr (s1\<lparr>waveBuf := \<lparr>data_vaddr = audio_buffer_addr s1,
                                nsamples = word_of_int (bytesRead div 2 div 2),
                                looping = False, status = NDSP_WBUF_FREE\<rparr>,
                   calls := calls s @
                     [OvRead,
                      NdspChnWaveBufAdd \<lparr>data_vaddr = audio_buffer_addr s1,
                                          nsamples = word_of_int (bytesRead div 2 div 2),
                                          looping = False, status = NDSP_WBUF_FREE\<rparr>]\<rparr>)"
  using assms ov_read_call_frame [OF assms(3)]
  by (simp add: myNdspCallback_def Let_def zero_waveBuf_def AUDIO_CHANNELS_def)

section \<open>The concrete states\<close>

lemmas demo_simps =
  demo_ready_def demo_playing_def demo_consumed_def demo_vorbis_def demo_assets_def
  initial_player_def playerInit_def playerPlay_def playerStop_def via_callbacks_def
  mem_read_func_def mem_close_func_def NUM_TRACKS_def final_state_def Let_def
  zero_waveBuf_def audio_buffer_addr_def AUDIO_BUFFER_SIZE_def AUDIO_CHANNELS_def
  AUDIO_SAMPLE_RATE_def

lemma demo_ready_stopped: "\<not> playing demo_ready"
  by (simp add: demo_simps)

lemma demo_play_returns: "playerPlay demo_vorbis 0 demo_ready = Inr demo_playing"
  by (simp add: demo_simps)

lemma demo_playing_fields:
  "playing demo_playing \<and> status (waveBuf demo_playing) = NDSP_WBUF_DONE \<and>
   vf demo_playing = Some \<lparr>datasource = 0, decoder = 0\<rparr> \<and>
   audio_buffer demo_playing = Some (replicate 2048 0) \<and>
   tracks demo_playing 0 = \<lparr>data = [79, 103, 103, 83, 0, 2], size = 6, offset = 4\<rparr>"
  by (simp add: demo_simps)

section \<open>The claims\<close>

text \<open>
  Claim C1: for a valid index whose asset the decoder opens, \<open>play(i)\<close> followed at once by
  \<open>is_playing()\<close> gives true. The code does not do that. \<^verbatim>\<open>playerIsPlaying\<close> is defined
  in \<^verbatim>\<open>main.c\<close> and returns that file's own static \<^verbatim>\<open>playing\<close>, which nothing assigns;
  \<^verbatim>\<open>playerPlay\<close> sets the \<^verbatim>\<open>playing\<close> of \<^verbatim>\<open>player.c\<close>. After \<^verbatim>\<open>playerInit()\<close> and a
  \<^verbatim>\<open>playerPlay(0)\<close> whose open succeeds, the flag of \<^verbatim>\<open>player.c\<close> is set and
  \<^verbatim>\<open>playerIsPlaying()\<close> answers false.
\<close>

theorem playerIsPlaying_after_play:
  "playerPlay demo_vorbis 0 demo_ready = Inr demo_playing \<and>
   playing demo_playing \<and> playerIsPlaying demo_playing = False"
  by (simp add: demo_simps playerIsPlaying_def)

text \<open>
  Claim C2, as the code has it: \<^verbatim>\<open>playerPlay\<close> checks no range and returns nothing. For an
  index outside \<open>[0, 3)\<close> it sets \<^verbatim>\<open>current_track\<close> to the index, after the implicit
  stop when a track was playing, and then indexes \<^verbatim>\<open>tracks\<close> out of bounds. When nothing
  was playing, the state at that point differs from the state before in
  \<^verbatim>\<open>current_track\<close> only.
\<close>

theorem playerPlay_out_of_range:
  assumes "index < 0 \<or> NUM_TRACKS \<le> index"
  shows "(\<not> playing s \<longrightarrow>
            playerPlay lib index s = Inl (OutOfBoundsIndex, s\<lparr>current_track := index\<rparr>)) \<and>
         (playing s \<longrightarrow> playerStop lib s = Inr s1 \<longrightarrow>
            playerPlay lib index s = Inl (OutOfBoundsIndex, s1\<lparr>current_track := index\<rparr>))"
  using assms by (auto simp add: playerPlay_def Let_def)

theorem playerPlay_out_of_range_witness:
  "NUM_TRACKS \<le> 3 \<and> playing demo_ready = False \<and>
   playerPlay demo_vorbis 3 demo_ready
     = Inl (OutOfBoundsIndex, demo_ready\<lparr>current_track := 3\<rparr>) \<and>
   playing demo_playing \<and>
   playerStop demo_vorbis demo_playing = Inr (final_state (playerStop demo_vorbis demo_playing)) \<and>
   playerPlay demo_vorbis 3 demo_playing
     = Inl (OutOfBoundsIndex,
            (final_state (playerStop demo_vorbis demo_playing))\<lparr>current_track := 3\<rparr>)"
proof -
  have range: "(3::int) < 0 \<or> NUM_TRACKS \<le> 3" by (simp add: NUM_TRACKS_def)
  have stop: "playerStop demo_vorbis demo_playing
      = Inr (final_state (playerStop demo_vorbis demo_playing))"
    by (simp add: demo_simps)
  show ?thesis
    using playerPlay_out_of_range [OF range, of demo_ready demo_vorbis demo_ready]
      playerPlay_out_of_range [OF range, of demo_playing demo_vorbis
        "final_state (playerStop demo_vorbis demo_playing)"]
      stop demo_ready_stopped demo_playing_fields
    by (simp add: NUM_TRACKS_def)
qed

text \<open>
  Claim C2 as stated fails: \<open>play(3)\<close> on a playing player stops the playback, releases
  the decoder and records 3 as the current track before the access out of bounds.
\<close>

theorem playerPlay_out_of_range_counterexample:
  "playing demo_playing \<and> current_track demo_playing = 0 \<and>
   vf demo_playing = Some \<lparr>datasource = 0, decoder = 0\<rparr> \<and>
   playerPlay demo_vorbis 3 demo_playing
     = Inl (OutOfBoundsIndex, final_state (playerPlay demo_vorbis 3 demo_playing)) \<and>
   playing (final_state (playerPlay demo_vorbis 3 demo_playing)) = False \<and>
   current_track (final_state (playerPlay demo_vorbis 3 demo_playing)) = 3 \<and>
   vf (final_state (playerPlay demo_vorbis 3 demo_playing)) = None"
  by (simp add: demo_simps)

text \<open>
  Claim C3: a seek succeeds exactly when the candidate offset lies in \<open>[0, L]\<close>. The code
  does not do that. For \<^verbatim>\<open>SEEK_CUR\<close> it tests only \<^verbatim>\<open>track->offset + offset > track->size\<close>,
  so the candidate -1 is accepted and the offset becomes \<open>2^32 - 1\<close>; for \<^verbatim>\<open>SEEK_SET\<close> and
  \<^verbatim>\<open>SEEK_END\<close> the cast to the 32-bit \<^verbatim>\<open>size_t\<close> drops the high bits before the test, so
  the candidates \<open>2^32\<close> and \<open>4 - 2^32\<close> are accepted. The track has four bytes.
\<close>

theorem mem_seek_func_accepts_out_of_range:
  "mem_seek_func \<lparr>data = [1, 2, 3, 4], size = 4, offset = 0\<rparr> (- 1) SEEK_CUR
     = (0, \<lparr>data = [1, 2, 3, 4], size = 4, offset = 4294967295\<rparr>) \<and>
   mem_seek_func \<lparr>data = [1, 2, 3, 4], size = 4, offset = 2\<rparr> 4294967296 SEEK_SET
     = (0, \<lparr>data = [1, 2, 3, 4], size = 4, offset = 0\<rparr>) \<and>
   mem_seek_func \<lparr>data = [1, 2, 3, 4], size = 4, offset = 2\<rparr> (- 4294967296) SEEK_END
     = (0, \<lparr>data = [1, 2, 3, 4], size = 4, offset = 4\<rparr>)"
  by (simp add: mem_seek_func_def SEEK_SET_def SEEK_CUR_def SEEK_END_def
      unsigned_minus_1_eq_mask mask_eq_exp_minus_1)

text \<open>
  Claim C4, as the code has it: the read follows \<^verbatim>\<open>fread\<close>, with an element size and
  an element count. On a track whose \<^verbatim>\<open>size\<close> is the length of its bytes, with the
  offset in \<open>[0, length]\<close>, an element size that is not zero and a request for which
  \<^verbatim>\<open>offset + size * nmemb\<close> stays below \<open>2^32\<close>, it copies
  \<open>min (size * nmemb) (length - offset)\<close> bytes from the offset, advances the offset by
  that number, and returns that number divided by the element size: the number of
  whole elements, which is the byte count when the element size is 1. At the end of the
  data it returns 0 and leaves the track as it is.
\<close>

theorem mem_read_func_in_range:
  assumes "length (data t) = unat (size t)" and "offset t \<le> size t"
    and "sz \<noteq> 0" and "unat (offset t) + unat sz * unat nmemb < 2 ^ 32"
  shows "mem_read_func t sz nmemb =
           (let n = min (unat sz * unat nmemb) (unat (size t) - unat (offset t))
            in Inr (take n (drop (unat (offset t)) (data t)), word_of_nat (n div unat sz),
                    t\<lparr>offset := offset t + word_of_nat n\<rparr>)) \<and>
         (offset t = size t \<longrightarrow> mem_read_func t sz nmemb = Inr ([], 0, t))"
  using mem_read_func_no_wrap [OF assms] by (simp add: Let_def)

theorem mem_read_func_in_range_witness:
  "mem_read_func \<lparr>data = [1, 2, 3, 4, 5, 6, 7, 8, 9, 10], size = 10, offset = 5\<rparr> 1 8
     = Inr ([6, 7, 8, 9, 10], 5,
            \<lparr>data = [1, 2, 3, 4, 5, 6, 7, 8, 9, 10], size = 10, offset = 10\<rparr>) \<and>
   mem_read_func \<lparr>data = [1, 2, 3, 4, 5, 6, 7, 8, 9, 10], size = 10, offset = 10\<rparr> 1 8
     = Inr ([], 0, \<lparr>data = [1, 2, 3, 4, 5, 6, 7, 8, 9, 10], size = 10, offset = 10\<rparr>)"
proof -
  let ?d = "[1, 2, 3, 4, 5, 6, 7, 8, 9, 10] :: byte list"
  let ?t = "\<lparr>data = ?d, size = 10, offset = 5\<rparr>"
  let ?e = "\<lparr>data = ?d, size = 10, offset = 10\<rparr>"
  have one: "(1::size_t) \<noteq> 0" by simp
  have wf: "length (data ?t) = unat (size ?t)" and wfe: "length (data ?e) = unat (size ?e)"
    by simp_all
  have off: "offset ?t \<le> size ?t" and offe: "offset ?e \<le> size ?e"
    by simp_all
  have nw: "unat (offset ?t) + unat (1::size_t) * unat (8::size_t) < 2 ^ 32"
    and nwe: "unat (offset ?e) + unat (1::size_t) * unat (8::size_t) < 2 ^ 32"
    by simp_all
  show ?thesis
    using mem_read_func_in_range [OF wf off one nw] mem_read_func_in_range [OF wfe offe one nwe]
    by (simp add: Let_def)
qed

text \<open>
  Claim C4 as stated fails: what the read returns is not the number of bytes it copied.
  Asked for one element of 8 bytes at offset 5 of a track of 10 bytes, it copies the
  5 bytes left, moves the offset to the end and returns 0; asked for three elements of
  2 bytes it copies 6 bytes and returns 3.
\<close>

theorem mem_read_func_counts_elements:
  "mem_read_func \<lparr>data = [1, 2, 3, 4, 5, 6, 7, 8, 9, 10], size = 10, offset = 5\<rparr> 8 1
     = Inr ([6, 7, 8, 9, 10], 0,
            \<lparr>data = [1, 2, 3, 4, 5, 6, 7, 8, 9, 10], size = 10, offset = 10\<rparr>) \<and>
   mem_read_func \<lparr>data = [1, 2, 3, 4, 5, 6, 7, 8, 9, 10], size = 10, offset = 0\<rparr> 2 3
     = Inr ([1, 2, 3, 4, 5, 6], 3,
            \<lparr>data = [1, 2, 3, 4, 5, 6, 7, 8, 9, 10], size = 10, offset = 6\<rparr>)"
  by (simp add: mem_read_func_def)

text \<open>
  The statement above leaves out the requests for which
  \<^verbatim>\<open>track->offset + bytes_to_read\<close> wraps around. There the count is not reduced: at
  offset 5 of a track of ten bytes, a request for \<open>2^32 - 1\<close> bytes gives the sum 4,
  which is not greater than the size, and \<^verbatim>\<open>memcpy\<close> reads \<open>2^32 - 1\<close> bytes from
  offset 5, far beyond the track.
\<close>

lemma mem_read_func_wraps:
  "mem_read_func \<lparr>data = [1, 2, 3, 4, 5, 6, 7, 8, 9, 10], size = 10, offset = 5\<rparr> 1 4294967295
     = Inl (OutOfBoundsRead, \<lparr>data = [1, 2, 3, 4, 5, 6, 7, 8, 9, 10], size = 10, offset = 5\<rparr>)"
  by (simp add: mem_read_func_def)

text \<open>
  Claim C5: when the refill in the drained-notification callback gets nothing from the
  decoder (\<^verbatim>\<open>ov_read\<close> returns zero or less), the callback clears \<^verbatim>\<open>playing\<close>, makes no
  call but the \<^verbatim>\<open>ov_read\<close> itself (so no wave buffer is submitted) and leaves the wave
  buffer descriptor as it was; and any number of further callbacks on the state reached
  return it unchanged, so nothing is submitted and nothing stops a second time.
\<close>

theorem myNdspCallback_end_of_stream:
  assumes "playing s" and "status (waveBuf s) = NDSP_WBUF_DONE"
    and "ov_read_call lib s = Inr (bytesRead, s1)" and "bytesRead \<le> 0"
  shows "myNdspCallback lib s = Inr (s1\<lparr>playing := False\<rparr>) \<and>
         calls (s1\<lparr>playing := False\<rparr>) = calls s @ [OvRead] \<and>
         waveBuf (s1\<lparr>playing := False\<rparr>) = waveBuf s \<and>
         (\<forall>n. callbacks lib n (s1\<lparr>playing := False\<rparr>) = Inr (s1\<lparr>playing := False\<rparr>))"
  using assms ov_read_call_frame [OF assms(3)]
  by (simp add: myNdspCallback_def callbacks_stopped)

theorem myNdspCallback_end_of_stream_witness:
  "playing demo_playing \<and> status (waveBuf demo_playing) = NDSP_WBUF_DONE \<and>
   ov_read_call demo_vorbis demo_playing
     = Inr (0, demo_playing\<lparr>calls := calls demo_playing @ [OvRead]\<rparr>) \<and>
   myNdspCallback demo_vorbis demo_playing
     = Inr (demo_playing\<lparr>calls := calls demo_playing @ [OvRead], playing := False\<rparr>) \<and>
   callbacks demo_vorbis 3
       (demo_playing\<lparr>calls := calls demo_playing @ [OvRead], playing := False\<rparr>)
     = Inr (demo_playing\<lparr>calls := calls demo_playing @ [OvRead], playing := False\<rparr>)"
proof -
  have p: "playing demo_playing" and d: "status (waveBuf demo_playing) = NDSP_WBUF_DONE"
    using demo_playing_fields by simp_all
  have r: "ov_read_call demo_vorbis demo_playing
      = Inr (0, demo_playing\<lparr>calls := calls demo_playing @ [OvRead]\<rparr>)"
    using demo_playing_fields
    by (auto simp add: ov_read_call_def Let_def via_callbacks_def demo_vorbis_def
        intro!: player.equality)
  have z: "(0::int) \<le> 0" by simp
  show ?thesis
    using myNdspCallback_end_of_stream [OF p d r z] p d r by simp
qed

text \<open>
  Claim C6, as the code has it: on a successful open \<^verbatim>\<open>playerPlay\<close> decodes nothing.
  After the implicit stop, when a track was playing, it makes two calls: the open, and
  one submission of the wave buffer descriptor, which it has zeroed, given the address
  held in \<^verbatim>\<open>audio_buffer\<close> and marked \<^verbatim>\<open>NDSP_WBUF_DONE\<close>, so that its sample count
  is 0. It sets \<^verbatim>\<open>playing\<close>, and the staging buffer is as it was before the call.
\<close>

theorem playerPlay_open_success:
  assumes "0 \<le> index" and "index < NUM_TRACKS"
    and "(if playing s then playerStop lib s else Inr s) = Inr s1"
    and "run (ov_open_callbacks lib) ((tracks s1 (nat index))\<lparr>offset := 0\<rparr>) = Inr ((r, d), t')"
    and "0 \<le> r"
  shows "playerPlay lib index s =
           Inr (s1\<lparr>current_track := index,
                   tracks := (tracks s1)(nat index := t'),
                   vf := Some \<lparr>datasource = nat index, decoder = d\<rparr>,
                   waveBuf := \<lparr>data_vaddr = audio_buffer_addr s1, nsamples = 0,
                               looping = False, status = NDSP_WBUF_DONE\<rparr>,
                   calls := calls s1 @
                     [OvOpenCallbacks (nat index),
                      NdspChnWaveBufAdd \<lparr>data_vaddr = audio_buffer_addr s1, nsamples = 0,
                                          looping = False, status = NDSP_WBUF_DONE\<rparr>],
                   playing := True\<rparr>) \<and>
         playing (final_state (playerPlay lib index s)) \<and>
         calls (final_state (playerPlay lib index s)) =
           calls s1 @
             [OvOpenCallbacks (nat index),
              NdspChnWaveBufAdd \<lparr>data_vaddr = audio_buffer_addr s1, nsamples = 0,
                                  looping = False, status = NDSP_WBUF_DONE\<rparr>] \<and>
         audio_buffer (final_state (playerPlay lib index s)) = audio_buffer s"
proof -
  have eq: "playerPlay lib index s =
           Inr (s1\<lparr>current_track := index,
                   tracks := (tracks s1)(nat index := t'),
                   vf := Some \<lparr>datasource = nat index, decoder = d\<rparr>,
                   waveBuf := \<lparr>data_vaddr = audio_buffer_addr s1, nsamples = 0,
                               looping = False, status = NDSP_WBUF_DONE\<rparr>,
                   calls := calls s1 @
                     [OvOpenCallbacks (nat index),
                      NdspChnWaveBufAdd \<lparr>data_vaddr = audio_buffer_addr s1, nsamples = 0,
                                          looping = False, status = NDSP_WBUF_DONE\<rparr>],
                   playing := True\<rparr>)"
    using assms
    by (simp add: playerPlay_def Let_def via_callbacks_def zero_waveBuf_def audio_buffer_addr_def)
  have buf: "audio_buffer s1 = audio_buffer s"
    using assms(3) by (rule implicit_stop_audio_buffer)
  show ?thesis
    using eq buf by (simp add: final_state_def)
qed

theorem playerPlay_open_success_witness:
  "(0::int) \<le> 0 \<and> 0 < NUM_TRACKS \<and> playing demo_ready = False \<and>
   run (ov_open_callbacks demo_vorbis) ((tracks demo_ready (nat 0))\<lparr>offset := 0\<rparr>)
     = Inr ((0, 0), \<lparr>data = [79, 103, 103, 83, 0, 2], size = 6, offset = 4\<rparr>) \<and>
   playerPlay demo_vorbis 0 demo_ready =
     Inr (demo_ready\<lparr>current_track := 0,
            tracks := (tracks demo_ready)
              (nat 0 := \<lparr>data = [79, 103, 103, 83, 0, 2], size = 6, offset = 4\<rparr>),
            vf := Some \<lparr>datasource = nat 0, decoder = 0\<rparr>,
            waveBuf := \<lparr>data_vaddr = Audio_buffer, nsamples = 0,
                        looping = False, status = NDSP_WBUF_DONE\<rparr>,
            calls := calls demo_ready @
              [OvOpenCallbacks (nat 0),
               NdspChnWaveBufAdd \<lparr>data_vaddr = Audio_buffer, nsamples = 0,
                                   looping = False, status = NDSP_WBUF_DONE\<rparr>],
            playing := True\<rparr>) \<and>
   playing (final_state (playerPlay demo_vorbis 0 demo_ready)) \<and>
   calls (final_state (playerPlay demo_vorbis 0 demo_ready)) =
     calls demo_ready @
       [OvOpenCallbacks (nat 0),
        NdspChnWaveBufAdd \<lparr>data_vaddr = Audio_buffer, nsamples = 0,
                            looping = False, status = NDSP_WBUF_DONE\<rparr>] \<and>
   audio_buffer (final_state (playerPlay demo_vorbis 0 demo_ready)) = audio_buffer demo_ready"
proof -
  have i0: "(0::int) \<le> 0" and i1: "(0::int) < NUM_TRACKS"
    by (simp_all add: NUM_TRACKS_def)
  have stop: "(if playing demo_ready then playerStop demo_vorbis demo_ready else Inr demo_ready)
      = Inr demo_ready"
    by (simp add: demo_ready_stopped)
  have opened: "run (ov_open_callbacks demo_vorbis) ((tracks demo_ready (nat 0))\<lparr>offset := 0\<rparr>)
      = Inr ((0, 0), \<lparr>data = [79, 103, 103, 83, 0, 2], size = 6, offset = 4\<rparr>)"
    by (simp add: demo_simps)
  have addr: "audio_buffer_addr demo_ready = Audio_buffer"
    by (simp add: demo_simps)
  show ?thesis
    using playerPlay_open_success [OF i0 i1 stop opened i0] opened demo_ready_stopped addr
    by (simp add: NUM_TRACKS_def final_state_def)
qed

text \<open>
  Claim C6 as stated fails: \<open>play(0)\<close> returns with \<^verbatim>\<open>playing\<close> set, and it has not
  called \<^verbatim>\<open>ov_read\<close>; what it submitted holds 0 samples, and the staging buffer is as
  \<^verbatim>\<open>playerInit\<close> left it.
\<close>

theorem playerPlay_primes_counterexample:
  "playerPlay demo_vorbis 0 demo_ready = Inr demo_playing \<and> playing demo_playing \<and>
   calls demo_playing = calls demo_ready @
     [OvOpenCallbacks 0,
      NdspChnWaveBufAdd \<lparr>data_vaddr = Audio_buffer, nsamples = 0,
                          looping = False, status = NDSP_WBUF_DONE\<rparr>] \<and>
   OvRead \<notin> set (calls demo_playing) \<and>
   audio_buffer demo_playing = audio_buffer demo_ready"
  by (simp add: demo_simps)

text \<open>
  Claim C7: \<open>stop()\<close> is idempotent. When \<^verbatim>\<open>playing\<close> is false \<^verbatim>\<open>playerStop\<close> returns
  the state as it is (no call is made, no variable changes), and \<^verbatim>\<open>playerStop\<close> run
  twice is \<^verbatim>\<open>playerStop\<close> run once.
\<close>

theorem playerStop_idempotent:
  "(\<not> playing s \<longrightarrow> playerStop lib s = Inr s) \<and>
   (case playerStop lib s of Inl e \<Rightarrow> Inl e | Inr s' \<Rightarrow> playerStop lib s') = playerStop lib s"
proof -
  have twice: "(case playerStop lib s of Inl e \<Rightarrow> Inl e | Inr s' \<Rightarrow> playerStop lib s')
      = playerStop lib s"
  proof (cases "playerStop lib s")
    case (Inl e)
    then show ?thesis by simp
  next
    case (Inr s')
    then have "\<not> playing s'" by (rule playerStop_Inr_stopped)
    then show ?thesis using Inr by (simp add: playerStop_stopped)
  qed
  show ?thesis using twice by (simp add: playerStop_stopped)
qed

theorem playerStop_idempotent_witness:
  "playing demo_ready = False \<and> playerStop demo_vorbis demo_ready = Inr demo_ready \<and>
   playing demo_playing \<and>
   playerStop demo_vorbis demo_playing =
     Inr (demo_playing\<lparr>vf := None, calls := calls demo_playing @ [OvClear, NdspChnReset],
            playing := False\<rparr>) \<and>
   (case playerStop demo_vorbis demo_playing of
      Inl e \<Rightarrow> Inl e | Inr s' \<Rightarrow> playerStop demo_vorbis s')
     = playerStop demo_vorbis demo_playing"
proof -
  have stop: "playerStop demo_vorbis demo_playing =
     Inr (demo_playing\<lparr>vf := None, calls := calls demo_playing @ [OvClear, NdspChnReset],
            playing := False\<rparr>)"
    using demo_playing_fields
    by (auto simp add: playerStop_def Let_def via_callbacks_def demo_vorbis_def mem_close_func_def
        intro!: player.equality)
  show ?thesis
    using playerStop_idempotent [of demo_ready demo_vorbis]
      playerStop_idempotent [of demo_playing demo_vorbis]
      demo_ready_stopped demo_playing_fields stop
    by simp
qed

text \<open>
  Claim C8, as the code has it: the cursor is a field of the registry entry itself, so
  an entry does change (play, read and seek write its \<^verbatim>\<open>offset\<close>). What never changes
  is the asset: the bytes \<^verbatim>\<open>data\<close> and the \<^verbatim>\<open>size\<close> of every entry stay as they are
  under any sequence of read, seek, tell and close callbacks, and under play, stop,
  exit and the drained-notification callback, whether they return or fault.
\<close>

theorem registry_assets_unchanged:
  "data (ended (run m t)) = data t \<and> size (ended (run m t)) = size t \<and>
   data (tracks (final_state (playerPlay lib index s)) i) = data (tracks s i) \<and>
   size (tracks (final_state (playerPlay lib index s)) i) = size (tracks s i) \<and>
   data (tracks (final_state (playerStop lib s)) i) = data (tracks s i) \<and>
   size (tracks (final_state (playerStop lib s)) i) = size (tracks s i) \<and>
   data (tracks (final_state (playerExit lib s)) i) = data (tracks s i) \<and>
   size (tracks (final_state (playerExit lib s)) i) = size (tracks s i) \<and>
   data (tracks (final_state (myNdspCallback lib s)) i) = data (tracks s i) \<and>
   size (tracks (final_state (myNdspCallback lib s)) i) = size (tracks s i)"
  using run_asset [of m t] playerPlay_asset [of lib index s i] playerStop_asset [of lib s i]
    playerExit_asset [of lib s i] myNdspCallback_asset [of lib s i]
  by simp

theorem registry_assets_unchanged_witness:
  "data (tracks demo_playing 0) = [79, 103, 103, 83, 0, 2] \<and>
   size (tracks demo_playing 0) = 6 \<and>
   data (tracks (final_state (playerPlay demo_vorbis 1 demo_playing)) 0)
     = [79, 103, 103, 83, 0, 2] \<and>
   size (tracks (final_state (playerPlay demo_vorbis 1 demo_playing)) 0) = 6 \<and>
   data (tracks (final_state (myNdspCallback demo_vorbis demo_playing)) 0)
     = [79, 103, 103, 83, 0, 2] \<and>
   data (ended (run (Seek_func 2 SEEK_SET (\<lambda>r. Read_func 1 3 (\<lambda>ptr n. Ret ptr)))
                  (tracks demo_playing 0)))
     = [79, 103, 103, 83, 0, 2]"
  using registry_assets_unchanged
    [of "Seek_func 2 SEEK_SET (\<lambda>r. Read_func 1 3 (\<lambda>ptr n. Ret ptr))" "tracks demo_playing 0"
      demo_vorbis 1 demo_playing 0]
    demo_playing_fields
  by simp

text \<open>
  Claim C8 as stated fails: \<open>play(0)\<close> changes the registry entry of track 0, whose
  \<^verbatim>\<open>offset\<close> goes from 0 to the 4 bytes the open has read.
\<close>

theorem registry_entry_counterexample:
  "playerPlay demo_vorbis 0 demo_ready = Inr demo_playing \<and>
   tracks demo_ready 0 = \<lparr>data = [79, 103, 103, 83, 0, 2], size = 6, offset = 0\<rparr> \<and>
   tracks demo_playing 0 = \<lparr>data = [79, 103, 103, 83, 0, 2], size = 6, offset = 4\<rparr> \<and>
   tracks demo_playing 0 \<noteq> tracks demo_ready 0"
  by (simp add: demo_simps)

text \<open>
  Claim C10: when \<^verbatim>\<open>playerPlay(index)\<close> fails because the open rejects the asset, the
  call returns with \<^verbatim>\<open>playing\<close> false, but not in the state it started from:
  \<^verbatim>\<open>current_track\<close> is the requested index, and the track's cursor is what the open's
  reads made of it starting from offset 0, to which it was reset before the open.
  Nothing of the state before the call is restored.
\<close>

theorem playerPlay_open_failure:
  assumes "0 \<le> index" and "index < NUM_TRACKS"
    and "(if playing s then playerStop lib s else Inr s) = Inr s1"
    and "run (ov_open_callbacks lib) ((tracks s1 (nat index))\<lparr>offset := 0\<rparr>) = Inr ((r, d), t')"
    and "r < 0"
  shows "playerPlay lib index s =
           Inr (s1\<lparr>current_track := index,
                   tracks := (tracks s1)(nat index := t'),
                   calls := calls s1 @ [OvOpenCallbacks (nat index)],
                   vf := None\<rparr>) \<and>
         playing (final_state (playerPlay lib index s)) = False \<and>
         current_track (final_state (playerPlay lib index s)) = index \<and>
         tracks (final_state (playerPlay lib index s)) (nat index) = t'"
proof -
  have stopped: "\<not> playing s1"
    using assms(3) by (auto split: if_splits dest: playerStop_Inr_stopped)
  have "playerPlay lib index s =
           Inr (s1\<lparr>current_track := index,
                   tracks := (tracks s1)(nat index := t'),
                   calls := calls s1 @ [OvOpenCallbacks (nat index)],
                   vf := None\<rparr>)"
    using assms by (simp add: playerPlay_def Let_def via_callbacks_def)
  then show ?thesis using stopped by (simp add: final_state_def)
qed

theorem playerPlay_open_failure_witness:
  "(0::int) \<le> 1 \<and> 1 < NUM_TRACKS \<and> playing demo_consumed = False \<and>
   current_track demo_consumed = - 1 \<and>
   tracks demo_consumed 1 = \<lparr>data = [1, 2, 3, 4, 5, 6], size = 6, offset = 6\<rparr> \<and>
   run (ov_open_callbacks demo_vorbis) ((tracks demo_consumed (nat 1))\<lparr>offset := 0\<rparr>)
     = Inr ((- 132, 0), \<lparr>data = [1, 2, 3, 4, 5, 6], size = 6, offset = 4\<rparr>) \<and>
   playing (final_state (playerPlay demo_vorbis 1 demo_consumed)) = False \<and>
   current_track (final_state (playerPlay demo_vorbis 1 demo_consumed)) = 1 \<and>
   tracks (final_state (playerPlay demo_vorbis 1 demo_consumed)) (nat 1)
     = \<lparr>data = [1, 2, 3, 4, 5, 6], size = 6, offset = 4\<rparr>"
proof -
  have i0: "(0::int) \<le> 1" and i1: "(1::int) < NUM_TRACKS"
    by (simp_all add: NUM_TRACKS_def)
  have stopped: "playing demo_consumed = False"
    by (simp add: demo_simps)
  then have stop: "(if playing demo_consumed then playerStop demo_vorbis demo_consumed
      else Inr demo_consumed) = Inr demo_consumed"
    by simp
  have before: "current_track demo_consumed = - 1 \<and>
      tracks demo_consumed 1 = \<lparr>data = [1, 2, 3, 4, 5, 6], size = 6, offset = 6\<rparr>"
    by (simp add: demo_simps)
  have rejected: "run (ov_open_callbacks demo_vorbis) ((tracks demo_consumed (nat 1))\<lparr>offset := 0\<rparr>)
      = Inr ((- 132, 0), \<lparr>data = [1, 2, 3, 4, 5, 6], size = 6, offset = 4\<rparr>)"
    by (simp add: demo_simps)
  have neg: "(- 132 :: int) < 0" by simp
  show ?thesis
    using playerPlay_open_failure [OF i0 i1 stop rejected neg] stopped before rejected
    by (simp add: NUM_TRACKS_def final_state_def)
qed

end
